theory Spec2Isabelle
  imports Complex_Main
begin

section \<open>Values, errors and strings\<close>

text \<open>
  A value of Python type \<open>Any\<close>, as it comes out of a JSON body.  main.py never computes
  with such a value; the only thing it ever asks of one is whether it is a \<open>str\<close>
  (to call \<open>.upper()\<close> on it).
\<close>

datatype pyany =
    PyNone
  | PyBool bool
  | PyInt int
  | PyFloat real
  | PyStr string
  | PyList "pyany list"
  | PyDict "string \<Rightarrow> pyany option"

text \<open>The exceptions a node of the workflow can meet.\<close>

datatype exn =
    Timeout
  | ConnectionError
  | HTTPError nat
  | JSONDecodeError
  | KeyError
  | AttributeError

text \<open>
  A \<open>string\<close> is a list of 8-bit characters, read as the code points U+0000..U+00FF; text
  with a code point above U+00FF is outside the model.

  \<open>str.isspace\<close> on these: tab, line feed, vertical tab, form feed, carriage return, the
  four separators 28..31, the blank, next line (U+0085) and the no-break space (U+00A0).
\<close>

definition is_space :: "char \<Rightarrow> bool" where
  "is_space c = (of_char c \<in> {9, 10, 11, 12, 13, 28, 29, 30, 31, 32, 133, 160 :: nat})"

text \<open>\<open>str.strip()\<close>: leading and trailing white space removed.\<close>

definition strip :: "string \<Rightarrow> string" where
  "strip s = rev (dropWhile is_space (rev (dropWhile is_space s)))"

text \<open>
  \<open>str.upper()\<close> of one character: a..z and the letters U+00E0..U+00FE (but the division
  sign U+00F7) move down by 32; the sharp s (U+00DF) becomes \<open>SS\<close>; every other character
  stays, except the micro sign (U+00B5) and the y with diaeresis (U+00FF), whose upper
  case lies above U+00FF: for these the answer is \<open>None\<close>.
\<close>

definition upper_char :: "char \<Rightarrow> string option" where
  "upper_char c =
     (let n = of_char c :: nat in
      if n = 181 \<or> n = 255 then None
      else if n = 223 then Some ''SS''
      else if (97 \<le> n \<and> n \<le> 122) \<or> (224 \<le> n \<and> n \<le> 254 \<and> n \<noteq> 247)
        then Some [char_of (n - 32)]
      else Some [c])"

text \<open>\<open>str.upper()\<close>; \<open>None\<close> when the upper case has a character above U+00FF.\<close>

fun upper :: "string \<Rightarrow> string option" where
  "upper [] = Some []"
| "upper (c # cs) =
     (case upper_char c of
        None \<Rightarrow> None
      | Some u \<Rightarrow> (case upper cs of None \<Rightarrow> None | Some r \<Rightarrow> Some (u @ r)))"

text \<open>
  \<open>str.lower()\<close>: A..Z and the letters U+00C0..U+00DE (but the multiplication sign
  U+00D7) move up by 32; every other character stays.
\<close>

definition lower_char :: "char \<Rightarrow> char" where
  "lower_char c =
     (let n = of_char c :: nat in
      if (65 \<le> n \<and> n \<le> 90) \<or> (192 \<le> n \<and> n \<le> 222 \<and> n \<noteq> 215) then char_of (n + 32)
      else c)"

definition lower :: "string \<Rightarrow> string" where
  "lower s = map lower_char s"

text \<open>\<open>str.split(",")\<close>: always at least one piece; the empty string gives one empty piece.\<close>

fun split_comma :: "string \<Rightarrow> string list" where
  "split_comma [] = [[]]"
| "split_comma (c # cs) =
     (if c = CHR '','' then [] # split_comma cs
      else (case split_comma cs of [] \<Rightarrow> [[c]] | w # ws \<Rightarrow> (c # w) # ws))"

text \<open>
  \<open>list.index\<close>: the position of the first occurrence.  Python raises ValueError when
  there is none; the only call, in \<open>stage2_next_stage\<close>, is guarded by
  \<open>current_stage in stages\<close>.
\<close>

fun index :: "'a list \<Rightarrow> 'a \<Rightarrow> nat" where
  "index [] x = 0"
| "index (y # ys) x = (if x = y then 0 else Suc (index ys x))"

section \<open>The workflow state\<close>

type_synonym pydict = "string \<Rightarrow> pyany option"

type_synonym activity = pydict

record lesson_output =
  out_template :: "string option"
  out_stages :: "(string \<times> activity list) list"
  out_student_id :: "string option"
  out_grade :: "string option"
  out_subject :: "string option"
  out_slos :: "string list option"

text \<open>
  \<open>State\<close> is a \<open>TypedDict\<close> with \<open>total=False\<close>: every key may be missing.  A field is
  \<open>None\<close> when its key is missing.  The two \<open>Optional\<close> keys that are read with a default
  (\<open>chosen_template\<close>, \<open>template_recommendation\<close>) keep apart the missing key (\<open>None\<close>)
  and the key holding Python's \<open>None\<close> (\<open>Some None\<close>), since \<open>dict.get(key, default)\<close>
  tells them apart.  \<open>current_stage\<close>, \<open>template_approved\<close> and \<open>final_output\<close> are read
  without a default or not at all, so there \<open>None\<close> stands for both.
\<close>

record State =
  student_id :: "string option"
  student_info :: "pydict option"
  grade :: "string option"
  subject :: "string option"
  slos :: "string list option"
  pre_slos :: "string list option"
  template_options :: "string list option"
  chosen_template :: "string option option"
  template_recommendation :: "pydict option option"
  template_stages :: "string list option"
  template_approved :: "bool option"
  template_adjustments :: "string list option"
  current_stage :: "string option"
  stage_activities :: "(string \<Rightarrow> activity list option) option"
  is_complete :: "bool option"
  final_output :: "lesson_output option"

text \<open>The JSON object \<open>/context\<close> answers with; a field is \<open>None\<close> when the key is missing.\<close>

record context_reply =
  c_student_info :: "pydict option"
  c_grade :: "string option"
  c_subject :: "string option"
  c_slos :: "string list option"
  c_pre_slos :: "string list option"

text \<open>\<open>d.get(key, default)\<close> on a state field.\<close>

definition get_or :: "'a option \<Rightarrow> 'a \<Rightarrow> 'a" where
  "get_or v d = (case v of None \<Rightarrow> d | Some x \<Rightarrow> x)"

section \<open>Stage 1\<close>

definition stage1_fetch_context :: "(exn + context_reply) \<Rightarrow> State \<Rightarrow> State" where
  "stage1_fetch_context reply state =
     (case student_id state of
        None \<Rightarrow> state\<lparr>template_options := Some [''5E'', ''7E'', ''PBL'', ''Dynamic'']\<rparr>
      | Some sid \<Rightarrow>
          (case reply of
             Inl e \<Rightarrow> state\<lparr>template_options := Some [''5E'', ''7E'', ''PBL'', ''Dynamic'']\<rparr>
           | Inr context \<Rightarrow>
               state\<lparr>student_info := Some (get_or (c_student_info context) Map.empty),
                     grade := Some (get_or (c_grade context) ''''),
                     subject := Some (get_or (c_subject context) ''''),
                     slos := Some (get_or (c_slos context) []),
                     pre_slos := Some (get_or (c_pre_slos context) []),
                     template_options := Some [''5E'', ''7E'', ''PBL'', ''Dynamic'']\<rparr>))"

definition default_recommendation :: pydict where
  "default_recommendation = [''template'' \<mapsto> PyStr ''5E'', ''confidence'' \<mapsto> PyInt 0]"

definition stage1_recommend_template :: "(exn + pydict) \<Rightarrow> State \<Rightarrow> State" where
  "stage1_recommend_template reply state =
     (case reply of
        Inr recommendation \<Rightarrow> state\<lparr>template_recommendation := Some (Some recommendation)\<rparr>
      | Inl e \<Rightarrow> state\<lparr>template_recommendation := Some (Some default_recommendation)\<rparr>)"

definition known_templates :: "string set" where
  "known_templates = {''5E'', ''7E'', ''PBL'', ''DYNAMIC''}"

text \<open>
  \<open>rec.get("template", "5E")\<close>, where it is taken for \<open>chosen\<close>: \<open>chosen.upper()\<close> raises
  AttributeError when the value is not a string.
\<close>

definition recommended :: "pydict \<Rightarrow> exn + string" where
  "recommended rec =
     (case rec ''template'' of
        None \<Rightarrow> Inr ''5E''
      | Some (PyStr t) \<Rightarrow> Inr t
      | Some _ \<Rightarrow> Inl AttributeError)"

text \<open>
  \<open>if chosen not in {...}: chosen = "5E"\<close>, on the upper case of \<open>chosen\<close>.  An upper case
  with a character above U+00FF (\<open>None\<close>) is none of the four names.
\<close>

definition validate_template :: "string option \<Rightarrow> string" where
  "validate_template chosen =
     (case chosen of
        None \<Rightarrow> ''5E''
      | Some c \<Rightarrow> if c \<notin> known_templates then ''5E'' else c)"

text \<open>
  \<open>line\<close> is what the human types at the prompt.  \<open>rec.get\<close> on Python's \<open>None\<close> raises
  before the prompt is shown.
\<close>

definition stage1_choose_template :: "string \<Rightarrow> State \<Rightarrow> exn + State" where
  "stage1_choose_template line state =
     (case get_or (template_recommendation state) (Some Map.empty) of
        None \<Rightarrow> Inl AttributeError
      | Some rec \<Rightarrow>
          (case (if strip line \<noteq> [] then Inr (strip line) else recommended rec) of
             Inl e \<Rightarrow> Inl e
           | Inr chosen \<Rightarrow>
               Inr (state\<lparr>chosen_template := Some (Some (validate_template (upper chosen)))\<rparr>)))"

section \<open>Template initialisation\<close>

definition fallback_stages :: "string option \<Rightarrow> string list" where
  "fallback_stages template =
     (if template = Some ''5E'' then [''Engage'', ''Explore'', ''Explain'', ''Elaborate'', ''Evaluate'']
      else if template = Some ''7E'' then
        [''Elicit'', ''Engage'', ''Explore'', ''Explain'', ''Elaborate'', ''Evaluate'', ''Extend'']
      else if template = Some ''PBL'' then [''Challenge'', ''Investigate'', ''Create'', ''Debrief'']
      else [])"

text \<open>
  \<open>reply\<close> is the outcome of \<open>fetch_template\<close>: an error, or the \<open>stages\<close> entry of the
  definition (\<open>None\<close> when the key is missing).  A template that is Python's \<open>None\<close> makes
  \<open>template_name.lower()\<close> raise inside the \<open>try\<close>.
\<close>

definition init_template :: "(exn + string list option) \<Rightarrow> State \<Rightarrow> State" where
  "init_template reply state =
     (let template = get_or (chosen_template state) (Some ''5E'') in
      state\<lparr>template_stages := Some
        (case template of
           None \<Rightarrow> fallback_stages template
         | Some t \<Rightarrow>
             (case reply of
                Inl e \<Rightarrow> fallback_stages template
              | Inr stages \<Rightarrow> get_or stages []))\<rparr>)"

section \<open>Stage 2\<close>

definition stage2_template_approval :: "string \<Rightarrow> State \<Rightarrow> State" where
  "stage2_template_approval line state =
     (let ans = lower (strip line) in state\<lparr>template_approved := Some (ans \<noteq> ''n'')\<rparr>)"

definition parse_stage_list :: "string \<Rightarrow> string list" where
  "parse_stage_list line = map strip (filter (\<lambda>s. strip s \<noteq> []) (split_comma line))"

definition stage2_template_adjustment :: "string \<Rightarrow> string \<Rightarrow> State \<Rightarrow> State" where
  "stage2_template_adjustment line list_line state =
     (let ans = lower (strip line) in
      if ans = ''y'' then
        (let new_stages = parse_stage_list list_line in
         state\<lparr>template_stages := Some new_stages, template_adjustments := Some new_stages\<rparr>)
      else state\<lparr>template_adjustments := Some []\<rparr>)"

definition stage2_prepare_stages :: "State \<Rightarrow> State" where
  "stage2_prepare_stages state =
     (let stages = get_or (template_stages state) [] in
      state\<lparr>current_stage := (if stages \<noteq> [] then Some (hd stages) else None),
            stage_activities := Some (get_or (stage_activities state) Map.empty)\<rparr>)"

definition default_activity :: "string \<Rightarrow> activity" where
  "default_activity current =
     [''type'' \<mapsto> PyStr ''discussion'', ''title'' \<mapsto> PyStr (''Default activity for '' @ current)]"

text \<open>
  The approval loop: \<open>ask i\<close> is the line typed at the prompt for the activity at
  position \<open>i\<close>; every answer but \<open>n\<close> approves.
\<close>

fun approve_activities :: "(nat \<Rightarrow> string) \<Rightarrow> nat \<Rightarrow> activity list \<Rightarrow> activity list" where
  "approve_activities ask i [] = []"
| "approve_activities ask i (a # as) =
     (if lower (strip (ask i)) \<noteq> ''n'' then a # approve_activities ask (Suc i) as
      else approve_activities ask (Suc i) as)"

text \<open>
  \<open>if not current_stage\<close>: Python's \<open>None\<close>, a missing key and the empty string all
  leave the state as it is.
\<close>

definition stage2_populate_stage ::
  "(exn + activity list option) \<Rightarrow> (nat \<Rightarrow> string) \<Rightarrow> State \<Rightarrow> State" where
  "stage2_populate_stage reply ask state =
     (case current_stage state of
        None \<Rightarrow> state
      | Some current \<Rightarrow>
          if current = [] then state
          else
            (let activities =
                   (case reply of
                      Inr acts \<Rightarrow> get_or acts []
                    | Inl e \<Rightarrow> [default_activity current]);
                 approved = approve_activities ask 0 activities;
                 current_activities = get_or (stage_activities state) Map.empty
             in state\<lparr>stage_activities := Some (current_activities(current \<mapsto> approved))\<rparr>))"

definition stage2_next_stage :: "State \<Rightarrow> State" where
  "stage2_next_stage state =
     (let stages = get_or (template_stages state) [] in
      case current_stage state of
        None \<Rightarrow> state\<lparr>current_stage := None\<rparr>
      | Some current \<Rightarrow>
          if current \<noteq> [] \<and> current \<in> set stages then
            (let idx = index stages current in
             if idx < length stages - 1 then state\<lparr>current_stage := Some (stages ! (idx + 1))\<rparr>
             else state\<lparr>current_stage := None\<rparr>)
          else state\<lparr>current_stage := None\<rparr>)"

section \<open>Stage 3\<close>

text \<open>\<open>stage in activities and activities[stage]\<close>: the key is there and its list is not empty.\<close>

definition has_activities :: "(string \<Rightarrow> activity list option) \<Rightarrow> string \<Rightarrow> bool" where
  "has_activities activities stage =
     (case activities stage of None \<Rightarrow> False | Some as \<Rightarrow> as \<noteq> [])"

definition stage3_check_completion :: "State \<Rightarrow> State" where
  "stage3_check_completion state =
     (let stages = get_or (template_stages state) [];
          activities = get_or (stage_activities state) Map.empty;
          complete = (stages \<noteq> [] \<and> list_all (has_activities activities) stages)
      in state\<lparr>is_complete := Some complete\<rparr>)"

definition stage3_generate_output :: "State \<Rightarrow> State" where
  "stage3_generate_output state =
     state\<lparr>final_output := Some
       \<lparr>out_template = get_or (chosen_template state) None,
        out_stages =
          map (\<lambda>stage. (stage, get_or (get_or (stage_activities state) Map.empty stage) []))
            (get_or (template_stages state) []),
        out_student_id = student_id state,
        out_grade = grade state,
        out_subject = subject state,
        out_slos = slos state\<rparr>\<rparr>"

section \<open>The workflow graph\<close>

datatype node =
    N_stage1_fetch_context
  | N_stage1_recommend_template
  | N_stage1_choose_template
  | N_init_template
  | N_stage2_template_approval
  | N_stage2_template_adjustment
  | N_stage2_prepare_stages
  | N_stage2_populate_stage
  | N_stage2_next_stage
  | N_stage3_check_completion
  | N_stage3_generate_output

text \<open>
  What the outside answers.  Every field takes the number of nodes executed so far, so
  the reasoner service and the human may answer differently at each visit of a node:
  the outcome of the one HTTP call a node makes (\<open>Inl\<close> when \<open>requests\<close> raises), and
  \<open>typed n j\<close>, the line the human types at the \<open>j\<close>-th prompt of the node executed at
  step \<open>n\<close>.  \<open>input()\<close> blocks until there is a line.
\<close>

record world =
  api_fetch_context :: "nat \<Rightarrow> exn + context_reply"
  api_recommend_template :: "nat \<Rightarrow> exn + pydict"
  api_fetch_template :: "nat \<Rightarrow> exn + string list option"
  api_propose_activities :: "nat \<Rightarrow> exn + activity list option"
  typed :: "nat \<Rightarrow> nat \<Rightarrow> string"

text \<open>A node either returns the next state or raises (\<open>Inl\<close>).\<close>

fun apply_node :: "world \<Rightarrow> nat \<Rightarrow> node \<Rightarrow> State \<Rightarrow> exn + State" where
  "apply_node w n N_stage1_fetch_context s = Inr (stage1_fetch_context (api_fetch_context w n) s)"
| "apply_node w n N_stage1_recommend_template s =
     Inr (stage1_recommend_template (api_recommend_template w n) s)"
| "apply_node w n N_stage1_choose_template s = stage1_choose_template (typed w n 0) s"
| "apply_node w n N_init_template s = Inr (init_template (api_fetch_template w n) s)"
| "apply_node w n N_stage2_template_approval s = Inr (stage2_template_approval (typed w n 0) s)"
| "apply_node w n N_stage2_template_adjustment s =
     Inr (stage2_template_adjustment (typed w n 0) (typed w n 1) s)"
| "apply_node w n N_stage2_prepare_stages s = Inr (stage2_prepare_stages s)"
| "apply_node w n N_stage2_populate_stage s =
     Inr (stage2_populate_stage (api_propose_activities w n) (typed w n) s)"
| "apply_node w n N_stage2_next_stage s = Inr (stage2_next_stage s)"
| "apply_node w n N_stage3_check_completion s = Inr (stage3_check_completion s)"
| "apply_node w n N_stage3_generate_output s = Inr (stage3_generate_output s)"

definition should_continue_stages :: "State \<Rightarrow> string" where
  "should_continue_stages state =
     (case current_stage state of
        None \<Rightarrow> ''complete''
      | Some current \<Rightarrow> if current \<noteq> [] then ''continue'' else ''complete'')"

text \<open>The mapping of the conditional edge.\<close>

definition branch_map :: "string \<Rightarrow> node option" where
  "branch_map =
     [''continue'' \<mapsto> N_stage2_populate_stage, ''complete'' \<mapsto> N_stage3_check_completion]"

text \<open>The edges; \<open>None\<close> is \<open>END\<close>.\<close>

fun successor :: "node \<Rightarrow> State \<Rightarrow> node option" where
  "successor N_stage1_fetch_context s = Some N_stage1_recommend_template"
| "successor N_stage1_recommend_template s = Some N_stage1_choose_template"
| "successor N_stage1_choose_template s = Some N_init_template"
| "successor N_init_template s = Some N_stage2_template_approval"
| "successor N_stage2_template_approval s = Some N_stage2_template_adjustment"
| "successor N_stage2_template_adjustment s = Some N_stage2_prepare_stages"
| "successor N_stage2_prepare_stages s = Some N_stage2_populate_stage"
| "successor N_stage2_populate_stage s = Some N_stage2_next_stage"
| "successor N_stage2_next_stage s = branch_map (should_continue_stages s)"
| "successor N_stage3_check_completion s = Some N_stage3_generate_output"
| "successor N_stage3_generate_output s = None"

text \<open>
  Running the graph from a node, at step \<open>n\<close>, for at most \<open>fuel\<close> nodes: \<open>None\<close> when
  the fuel runs out before \<open>END\<close>, \<open>Some (Inl e)\<close> when a node raises, \<open>Some (Inr s)\<close>
  when \<open>END\<close> is reached with state \<open>s\<close>.  main.py sets no bound of its own on the number
  of nodes.
\<close>

fun run_from :: "world \<Rightarrow> nat \<Rightarrow> nat \<Rightarrow> node \<Rightarrow> State \<Rightarrow> (exn + State) option" where
  "run_from w 0 n nd s = None"
| "run_from w (Suc fuel) n nd s =
     (case apply_node w n nd s of
        Inl e \<Rightarrow> Some (Inl e)
      | Inr s' \<Rightarrow>
          (case successor nd s' of
             None \<Rightarrow> Some (Inr s')
           | Some nxt \<Rightarrow> run_from w fuel (Suc n) nxt s'))"

text \<open>The nodes executed, in order, each with the state it was entered with.\<close>

fun trace :: "world \<Rightarrow> nat \<Rightarrow> nat \<Rightarrow> node \<Rightarrow> State \<Rightarrow> (node \<times> State) list" where
  "trace w 0 n nd s = []"
| "trace w (Suc fuel) n nd s =
     (nd, s) #
     (case apply_node w n nd s of
        Inl e \<Rightarrow> []
      | Inr s' \<Rightarrow>
          (case successor nd s' of
             None \<Rightarrow> []
           | Some nxt \<Rightarrow> trace w fuel (Suc n) nxt s'))"

text \<open>The state \<open>__main__\<close> invokes the workflow with.\<close>

definition initial_state :: State where
  "initial_state =
     \<lparr>student_id = Some ''student_123'',
      student_info = Some Map.empty,
      grade = Some '''',
      subject = Some '''',
      slos = Some [],
      pre_slos = Some [],
      template_options = Some [],
      chosen_template = Some None,
      template_recommendation = Some None,
      template_stages = Some [],
      template_approved = None,
      template_adjustments = Some [],
      current_stage = None,
      stage_activities = Some Map.empty,
      is_complete = Some False,
      final_output = None\<rparr>"

text \<open>
  A world in which the reasoner service knows nothing (every call fails with the status
  reasoner.py answers an unknown student or template with) and the human only presses
  return.
\<close>

definition silent_world :: world where
  "silent_world =
     \<lparr>api_fetch_context = (\<lambda>n. Inl (HTTPError 500)),
      api_recommend_template = (\<lambda>n. Inl (HTTPError 500)),
      api_fetch_template = (\<lambda>n. Inl (HTTPError 500)),
      api_propose_activities = (\<lambda>n. Inl (HTTPError 500)),
      typed = (\<lambda>n j. '''')\<rparr>"

text \<open>Whether a run reached \<open>END\<close> with \<open>final_output\<close> set.\<close>

definition finished_with_output :: "(exn + State) option \<Rightarrow> bool" where
  "finished_with_output r =
     (case r of Some (Inr final) \<Rightarrow> final_output final \<noteq> None | _ \<Rightarrow> False)"

text \<open>A state with one stage, populated with the placeholder activity.\<close>

definition engage_only :: State where
  "engage_only =
     initial_state\<lparr>template_stages := Some [''Engage''],
       stage_activities := Some [''Engage'' \<mapsto> [default_activity ''Engage'']]\<rparr>"

text \<open>A state whose recommendation names a template outside the four known ones.\<close>

definition xyz_recommended :: State where
  "xyz_recommended =
     initial_state\<lparr>template_recommendation :=
       Some (Some [''template'' \<mapsto> PyStr ''XYZ'', ''confidence'' \<mapsto> PyInt 1])\<rparr>"

text \<open>A state whose recommendation names a template as the catalogue spells it.\<close>

definition dynamic_recommended :: State where
  "dynamic_recommended =
     initial_state\<lparr>template_recommendation := Some (Some [''template'' \<mapsto> PyStr ''Dynamic''])\<rparr>"

text \<open>
  A state whose stage sequence names one stage twice, with the cursor on the name of the
  last element.
\<close>

definition repeated_stages :: State where
  "repeated_stages =
     initial_state\<lparr>template_stages := Some [''Engage'', ''Explore'', ''Engage''],
       current_stage := Some ''Engage''\<rparr>"

text \<open>
  The silent world, but at the adjustment node (the sixth node of a run) the human answers
  \<open>y\<close> and types a list that names one stage twice.
\<close>

definition repeating_world :: world where
  "repeating_world =
     silent_world\<lparr>typed := (typed silent_world)
       (5 := (\<lambda>j. if j = 0 then ''y'' else ''Engage,Explore,Engage''))\<rparr>"

text \<open>The same, and the human rejects the activity at the second visit of the first stage.\<close>

definition fickle_world :: world where
  "fickle_world =
     repeating_world\<lparr>typed := (typed repeating_world)(11 := (\<lambda>j. ''n''))\<rparr>"

text \<open>
  The silent world, but the human replaces the stage sequence by two stages of their own,
  typing no-break spaces here and there.
\<close>

definition adjusting_world :: world where
  "adjusting_world =
     silent_world\<lparr>typed := (typed silent_world)
       (5 := (\<lambda>j. if j = 0 then [CHR ''Y'', CHR 0xA0]
                   else ''Hook,'' @ [CHR 0xA0] @ '', Practice''))\<rparr>"

text \<open>
  The keys \<open>stage2_populate_stage\<close> writes along a trace, in order: the cursor at each
  entry of the node, when it is a non-empty name.
\<close>

fun populated :: "(node \<times> State) list \<Rightarrow> string list" where
  "populated [] = []"
| "populated ((nd, s) # tr) =
     (case current_stage s of
        None \<Rightarrow> populated tr
      | Some c \<Rightarrow>
          if nd = N_stage2_populate_stage \<and> c \<noteq> [] then c # populated tr else populated tr)"

text \<open>The length of the entry under \<open>stage\<close> in each state of a trace (\<open>None\<close>: no entry).\<close>

definition entry_sizes :: "string \<Rightarrow> (node \<times> State) list \<Rightarrow> nat option list" where
  "entry_sizes stage tr =
     map (\<lambda>(nd, s). map_option length (get_or (stage_activities s) Map.empty stage)) tr"

text \<open>The cursor is null or names a stage of the sequence.\<close>

definition cursor_within :: "string list \<Rightarrow> State \<Rightarrow> bool" where
  "cursor_within stages s =
     (case current_stage s of None \<Rightarrow> True | Some c \<Rightarrow> c \<in> set stages)"

section \<open>Completion check\<close>

text \<open>
  C1.  The completion check sets \<open>is_complete\<close> to true exactly when \<open>template_stages\<close> is
  not empty and every stage name in it is a key of \<open>stage_activities\<close> holding a non-empty
  list.  So an empty \<open>template_stages\<close> gives false, and so does a stage with no entry or
  with an empty one.
\<close>

theorem check_completion_iff:
  "is_complete (stage3_check_completion state) =
     Some (get_or (template_stages state) [] \<noteq> [] \<and>
           (\<forall>stage \<in> set (get_or (template_stages state) []).
              \<exists>as. get_or (stage_activities state) Map.empty stage = Some as \<and> as \<noteq> []))"
  by (auto simp: stage3_check_completion_def Let_def list_all_iff has_activities_def
      split: option.splits)

theorem check_completion_iff_witness:
  "is_complete (stage3_check_completion engage_only) = Some True"
proof -
  have "is_complete (stage3_check_completion engage_only) =
     Some (get_or (template_stages engage_only) [] \<noteq> [] \<and>
           (\<forall>stage \<in> set (get_or (template_stages engage_only) []).
              \<exists>as. get_or (stage_activities engage_only) Map.empty stage = Some as \<and> as \<noteq> []))"
    by (rule check_completion_iff)
  also have "\<dots> = Some True"
    by (simp add: get_or_def engage_only_def)
  finally show ?thesis .
qed

lemma check_completion_no_stages:
  "get_or (template_stages state) [] = [] \<Longrightarrow>
   is_complete (stage3_check_completion state) = Some False"
  by (simp add: stage3_check_completion_def)

lemma check_completion_unpopulated_stage:
  "stage \<in> set (get_or (template_stages state) []) \<Longrightarrow>
   get_or (stage_activities state) Map.empty stage \<in> {None, Some []} \<Longrightarrow>
   is_complete (stage3_check_completion state) = Some False"
  by (fastforce simp: stage3_check_completion_def Let_def list_all_iff has_activities_def)

section \<open>Strings\<close>

lemma upper_char_space: "is_space c \<Longrightarrow> upper_char c = Some [c]"
  by (auto simp: is_space_def upper_char_def Let_def)

lemma upper_append:
  "upper (xs @ ys) =
     (case upper xs of
        None \<Rightarrow> None
      | Some a \<Rightarrow> (case upper ys of None \<Rightarrow> None | Some b \<Rightarrow> Some (a @ b)))"
  by (induction xs) (auto split: option.splits)

lemma strip_self:
  assumes "s \<noteq> []" "\<not> is_space (hd s)" "\<not> is_space (last s)"
  shows "strip s = s"
proof -
  from assms have 1: "dropWhile is_space s = s"
    by (simp add: dropWhile_eq_self_iff)
  from assms have 2: "dropWhile is_space (rev s) = rev s"
    by (simp add: dropWhile_eq_self_iff hd_rev)
  show ?thesis by (simp add: strip_def 1 2)
qed

lemma known_ends:
  "t \<in> known_templates \<Longrightarrow> t \<noteq> [] \<and> \<not> is_space (hd t) \<and> \<not> is_space (last t)"
  by (auto simp: known_templates_def is_space_def)

text \<open>A line whose upper case is a known template has no white space around it.\<close>

lemma strip_of_known:
  assumes u: "upper s = Some t" and k: "t \<in> known_templates"
  shows "strip s = s \<and> s \<noteq> []"
proof -
  from known_ends[OF k] have tne: "t \<noteq> []"
    and h: "\<not> is_space (hd t)" and l: "\<not> is_space (last t)"
    by simp_all
  from u tne have ne: "s \<noteq> []" by auto
  have "\<not> is_space (hd s)"
  proof
    assume sp: "is_space (hd s)"
    from ne obtain c cs where s: "s = c # cs" by (cases s) auto
    with sp have "upper_char c = Some [c]" by (simp add: upper_char_space)
    with u s have "hd t = c" by (auto split: option.splits)
    with sp s h show False by simp
  qed
  moreover have "\<not> is_space (last s)"
  proof
    assume sp: "is_space (last s)"
    from ne have s: "s = butlast s @ [last s]" by simp
    from sp have "upper [last s] = Some [last s]" by (simp add: upper_char_space)
    with u have "\<exists>a. t = a @ [last s]"
      by (subst (asm) s) (auto simp: upper_append split: option.splits)
    then have "last t = last s" by auto
    with sp l show False by simp
  qed
  ultimately show ?thesis using ne strip_self by simp
qed

lemma upper_5E: "upper ''5E'' = Some ''5E''"
  by code_simp

lemma upper_XYZ: "upper ''XYZ'' = Some ''XYZ''"
  by code_simp

lemma upper_pbl: "upper ''pbl'' = Some ''PBL''"
  by code_simp

lemma upper_Dynamic: "upper ''Dynamic'' = Some ''DYNAMIC''"
  by code_simp

lemma strip_XYZ: "strip ''XYZ'' = ''XYZ''"
  by (simp add: strip_def is_space_def)

lemma strip_empty: "strip [] = []"
  by (simp add: strip_def)

lemma strip_blank: "strip [CHR 0xA0, CHR '' ''] = []"
  by (simp add: strip_def is_space_def)

lemma XYZ_unknown: "''XYZ'' \<notin> known_templates"
  by (simp add: known_templates_def)

text \<open>White space and letters beyond ASCII.\<close>

lemma strip_no_break_space: "strip (CHR 0xA0 # ''PBL'' @ [CHR 0x85]) = ''PBL''"
  by (simp add: strip_def is_space_def)

lemma parse_stage_list_no_break_space:
  "parse_stage_list (''Engage,'' @ [CHR 0xA0] @ '',Explore'') = [''Engage'', ''Explore'']"
  by (simp add: parse_stage_list_def strip_def is_space_def)

lemma lower_strip_no_break_space: "lower (strip [CHR ''Y'', CHR 0xA0]) = ''y''"
  by code_simp

lemma upper_latin1:
  "upper [CHR 0xE9, CHR 0xDF, CHR 0xF7] = Some [CHR 0xC9, CHR ''S'', CHR ''S'', CHR 0xF7]"
  by code_simp

lemma upper_micro_sign: "upper [CHR 0xB5] = None"
  by code_simp

lemma lower_latin1: "lower [CHR 0xC9, CHR 0xD7, CHR ''N''] = [CHR 0xE9, CHR 0xD7, CHR ''n'']"
  by code_simp

section \<open>Failures of the reasoner service\<close>

text \<open>
  C5.  When the call made by the template-recommendation stage fails, with a timeout or
  with any other error, the stage returns the state with \<open>template_recommendation\<close> set to
  the default record: template \<open>5E\<close>, confidence \<open>0\<close>, and nothing else.  The node does not
  raise.
\<close>

theorem recommend_template_failure_default:
  "stage1_recommend_template (Inl e) state =
     state\<lparr>template_recommendation := Some (Some default_recommendation)\<rparr> \<and>
   default_recommendation ''template'' = Some (PyStr ''5E'') \<and>
   default_recommendation ''confidence'' = Some (PyInt 0) \<and>
   dom default_recommendation = {''template'', ''confidence''} \<and>
   apply_node (w\<lparr>api_recommend_template := (\<lambda>k. Inl e)\<rparr>) n N_stage1_recommend_template state =
     Inr (state\<lparr>template_recommendation := Some (Some default_recommendation)\<rparr>)"
  by (auto simp: stage1_recommend_template_def default_recommendation_def)

text \<open>
  C3, as the claim states it, fails: with a reasoner service that answers every call with
  the error it gives for an unknown student or template, the context node returns a state
  and the whole run reaches \<open>END\<close> with \<open>final_output\<close> set.
\<close>

theorem not_found_propagated_counterexample:
  "apply_node silent_world 0 N_stage1_fetch_context initial_state =
     Inr (initial_state\<lparr>template_options := Some [''5E'', ''7E'', ''PBL'', ''Dynamic'']\<rparr>) \<and>
   finished_with_output (run_from silent_world 19 0 N_stage1_fetch_context initial_state)"
proof
  show "apply_node silent_world 0 N_stage1_fetch_context initial_state =
     Inr (initial_state\<lparr>template_options := Some [''5E'', ''7E'', ''PBL'', ''Dynamic'']\<rparr>)"
    by (simp add: stage1_fetch_context_def silent_world_def initial_state_def)
  show "finished_with_output (run_from silent_world 19 0 N_stage1_fetch_context initial_state)"
    by code_simp
qed

text \<open>
  C3, amended.  A failure of the reasoner service to find the subject or the template,
  like any other failure of the call, is recovered inside the stage and not propagated:
  the context stage returns its input with only \<open>template_options\<close> set to the
  catalogue; the template initialisation sets \<open>template_stages\<close> to the built-in
  sequence of the chosen template (five stages for \<open>5E\<close>, seven for \<open>7E\<close>, four for
  \<open>PBL\<close>, none for \<open>DYNAMIC\<close> and for anything else); neither node raises, and the run
  continues with the next node.
\<close>

theorem not_found_recovered_locally:
  "stage1_fetch_context (Inl e) state =
     state\<lparr>template_options := Some [''5E'', ''7E'', ''PBL'', ''Dynamic'']\<rparr> \<and>
   init_template (Inl e) state =
     state\<lparr>template_stages := Some (fallback_stages (get_or (chosen_template state) (Some ''5E'')))\<rparr> \<and>
   fallback_stages (Some ''5E'') = [''Engage'', ''Explore'', ''Explain'', ''Elaborate'', ''Evaluate''] \<and>
   fallback_stages (Some ''7E'') =
     [''Elicit'', ''Engage'', ''Explore'', ''Explain'', ''Elaborate'', ''Evaluate'', ''Extend''] \<and>
   fallback_stages (Some ''PBL'') = [''Challenge'', ''Investigate'', ''Create'', ''Debrief''] \<and>
   fallback_stages (Some ''DYNAMIC'') = [] \<and>
   fallback_stages t =
     (if t \<in> {Some ''5E'', Some ''7E'', Some ''PBL''} then fallback_stages t else []) \<and>
   apply_node (w\<lparr>api_fetch_context := (\<lambda>k. Inl e)\<rparr>) n N_stage1_fetch_context state =
     Inr (state\<lparr>template_options := Some [''5E'', ''7E'', ''PBL'', ''Dynamic'']\<rparr>) \<and>
   apply_node (w\<lparr>api_fetch_template := (\<lambda>k. Inl e)\<rparr>) n N_init_template state =
     Inr (state\<lparr>template_stages := Some (fallback_stages (get_or (chosen_template state) (Some ''5E'')))\<rparr>) \<and>
   run_from (w\<lparr>api_fetch_context := (\<lambda>k. Inl e)\<rparr>) (Suc fuel) n N_stage1_fetch_context state =
     run_from (w\<lparr>api_fetch_context := (\<lambda>k. Inl e)\<rparr>) fuel (Suc n) N_stage1_recommend_template
       (state\<lparr>template_options := Some [''5E'', ''7E'', ''PBL'', ''Dynamic'']\<rparr>) \<and>
   run_from (w\<lparr>api_fetch_template := (\<lambda>k. Inl e)\<rparr>) (Suc fuel) n N_init_template state =
     run_from (w\<lparr>api_fetch_template := (\<lambda>k. Inl e)\<rparr>) fuel (Suc n) N_stage2_template_approval
       (state\<lparr>template_stages := Some (fallback_stages (get_or (chosen_template state) (Some ''5E'')))\<rparr>)"
proof -
  have f: "stage1_fetch_context (Inl e) state =
      state\<lparr>template_options := Some [''5E'', ''7E'', ''PBL'', ''Dynamic'']\<rparr>"
    by (simp add: stage1_fetch_context_def split: option.splits)
  have i: "init_template (Inl e) state =
      state\<lparr>template_stages := Some (fallback_stages (get_or (chosen_template state) (Some ''5E'')))\<rparr>"
    by (simp add: init_template_def Let_def split: option.splits)
  have fb: "fallback_stages (Some ''5E'') =
        [''Engage'', ''Explore'', ''Explain'', ''Elaborate'', ''Evaluate'']"
      "fallback_stages (Some ''7E'') =
        [''Elicit'', ''Engage'', ''Explore'', ''Explain'', ''Elaborate'', ''Evaluate'', ''Extend'']"
      "fallback_stages (Some ''PBL'') = [''Challenge'', ''Investigate'', ''Create'', ''Debrief'']"
      "fallback_stages (Some ''DYNAMIC'') = []"
    by (simp_all add: fallback_stages_def)
  have g: "fallback_stages t =
      (if t \<in> {Some ''5E'', Some ''7E'', Some ''PBL''} then fallback_stages t else [])"
    by (simp add: fallback_stages_def)
  have a1: "apply_node (w\<lparr>api_fetch_context := (\<lambda>k. Inl e)\<rparr>) n N_stage1_fetch_context state =
      Inr (state\<lparr>template_options := Some [''5E'', ''7E'', ''PBL'', ''Dynamic'']\<rparr>)"
    by (simp add: f)
  have a2: "apply_node (w\<lparr>api_fetch_template := (\<lambda>k. Inl e)\<rparr>) n N_init_template state =
      Inr (state\<lparr>template_stages := Some (fallback_stages (get_or (chosen_template state) (Some ''5E'')))\<rparr>)"
    by (simp add: i)
  have r1: "run_from (w\<lparr>api_fetch_context := (\<lambda>k. Inl e)\<rparr>) (Suc fuel) n N_stage1_fetch_context state =
      run_from (w\<lparr>api_fetch_context := (\<lambda>k. Inl e)\<rparr>) fuel (Suc n) N_stage1_recommend_template
        (state\<lparr>template_options := Some [''5E'', ''7E'', ''PBL'', ''Dynamic'']\<rparr>)"
    by (simp add: f)
  have r2: "run_from (w\<lparr>api_fetch_template := (\<lambda>k. Inl e)\<rparr>) (Suc fuel) n N_init_template state =
      run_from (w\<lparr>api_fetch_template := (\<lambda>k. Inl e)\<rparr>) fuel (Suc n) N_stage2_template_approval
        (state\<lparr>template_stages := Some (fallback_stages (get_or (chosen_template state) (Some ''5E'')))\<rparr>)"
    by (simp add: i)
  show ?thesis
    by (intro conjI) (rule f i fb g a1 a2 r1 r2)+
qed

section \<open>Choosing the template\<close>

lemma choose_template_override:
  assumes "get_or (template_recommendation state) (Some Map.empty) = Some rec"
    and "strip line \<noteq> []"
  shows "stage1_choose_template line state =
     Inr (state\<lparr>chosen_template := Some (Some (validate_template (upper (strip line))))\<rparr>)"
  using assms by (simp add: stage1_choose_template_def)

lemma choose_template_blank:
  assumes "get_or (template_recommendation state) (Some Map.empty) = Some rec"
    and "strip line = []"
    and "recommended rec = Inr t"
  shows "stage1_choose_template line state =
     Inr (state\<lparr>chosen_template := Some (Some (validate_template (upper t)))\<rparr>)"
  using assms by (simp add: stage1_choose_template_def)

lemma validate_template_known: "validate_template u \<in> known_templates"
  by (simp add: validate_template_def known_templates_def split: option.splits)

lemma validate_template_unknown:
  "u \<notin> Some ` known_templates \<Longrightarrow> validate_template u = ''5E''"
  by (auto simp: validate_template_def split: option.splits)

lemma choose_template_known:
  assumes "stage1_choose_template line state = Inr state'"
  shows "\<exists>t \<in> known_templates. chosen_template state' = Some (Some t)"
proof -
  from assms obtain u where
    "state' = state\<lparr>chosen_template := Some (Some (validate_template u))\<rparr>"
    by (auto simp: stage1_choose_template_def split: option.splits sum.splits)
  then show ?thesis by (simp add: validate_template_known)
qed

text \<open>
  C6.  When the human's override, stripped and put in upper case, is not one of \<open>5E\<close>,
  \<open>7E\<close>, \<open>PBL\<close>, \<open>DYNAMIC\<close>, the stage sets \<open>chosen_template\<close> to \<open>5E\<close>: in every state
  that gives it a recommendation record \<open>rec\<close> to read (the empty record when the key is
  missing), so in every state the recommendation stage returns.  And whenever the stage
  returns, \<open>chosen_template\<close> is one of the four.
\<close>

theorem choose_template_unrecognized:
  "(get_or (template_recommendation state) (Some Map.empty) = Some rec \<and>
    strip line \<noteq> [] \<and> upper (strip line) \<notin> Some ` known_templates \<longrightarrow>
      stage1_choose_template line state = Inr (state\<lparr>chosen_template := Some (Some ''5E'')\<rparr>)) \<and>
   (strip line \<noteq> [] \<and> upper (strip line) \<notin> Some ` known_templates \<longrightarrow>
      stage1_choose_template line (stage1_recommend_template reply state) =
        Inr ((stage1_recommend_template reply state)\<lparr>chosen_template := Some (Some ''5E'')\<rparr>)) \<and>
   (\<forall>state'. stage1_choose_template line state = Inr state' \<longrightarrow>
      (\<exists>t \<in> known_templates. chosen_template state' = Some (Some t)))"
proof (intro conjI impI allI)
  assume "get_or (template_recommendation state) (Some Map.empty) = Some rec \<and>
    strip line \<noteq> [] \<and> upper (strip line) \<notin> Some ` known_templates"
  then show "stage1_choose_template line state =
      Inr (state\<lparr>chosen_template := Some (Some ''5E'')\<rparr>)"
    by (simp add: choose_template_override validate_template_unknown)
next
  assume a: "strip line \<noteq> [] \<and> upper (strip line) \<notin> Some ` known_templates"
  have "get_or (template_recommendation (stage1_recommend_template reply state))
      (Some Map.empty) =
      Some (case reply of Inl e \<Rightarrow> default_recommendation | Inr recommendation \<Rightarrow> recommendation)"
    by (simp add: stage1_recommend_template_def get_or_def split: sum.splits)
  with a show "stage1_choose_template line (stage1_recommend_template reply state) =
      Inr ((stage1_recommend_template reply state)\<lparr>chosen_template := Some (Some ''5E'')\<rparr>)"
    by (simp add: choose_template_override validate_template_unknown)
next
  fix state'
  assume "stage1_choose_template line state = Inr state'"
  then show "\<exists>t \<in> known_templates. chosen_template state' = Some (Some t)"
    by (rule choose_template_known)
qed

theorem choose_template_unrecognized_witness:
  "get_or (template_recommendation xyz_recommended) (Some Map.empty) =
     Some [''template'' \<mapsto> PyStr ''XYZ'', ''confidence'' \<mapsto> PyInt 1] \<and>
   strip ''XYZ'' \<noteq> [] \<and> upper (strip ''XYZ'') \<notin> Some ` known_templates \<and>
   stage1_choose_template ''XYZ'' xyz_recommended =
     Inr (xyz_recommended\<lparr>chosen_template := Some (Some ''5E'')\<rparr>) \<and>
   (\<exists>t \<in> known_templates.
      chosen_template (xyz_recommended\<lparr>chosen_template := Some (Some ''5E'')\<rparr>) = Some (Some t))"
proof -
  have h1: "get_or (template_recommendation xyz_recommended) (Some Map.empty) =
     Some [''template'' \<mapsto> PyStr ''XYZ'', ''confidence'' \<mapsto> PyInt 1]"
    by (simp add: xyz_recommended_def get_or_def)
  have h2: "strip ''XYZ'' \<noteq> []" by (simp add: strip_XYZ)
  have h3: "upper (strip ''XYZ'') \<notin> Some ` known_templates"
    using XYZ_unknown by (auto simp: strip_XYZ upper_XYZ simp del: upper.simps)
  note t = choose_template_unrecognized [of xyz_recommended
      "[''template'' \<mapsto> PyStr ''XYZ'', ''confidence'' \<mapsto> PyInt 1]" "''XYZ''"]
  from t h1 h2 h3 have c1: "stage1_choose_template ''XYZ'' xyz_recommended =
     Inr (xyz_recommended\<lparr>chosen_template := Some (Some ''5E'')\<rparr>)"
    by blast
  with t have c2: "\<exists>t \<in> known_templates.
      chosen_template (xyz_recommended\<lparr>chosen_template := Some (Some ''5E'')\<rparr>) = Some (Some t)"
    by blast
  from h1 h2 h3 c1 c2 show ?thesis by blast
qed

text \<open>
  The override of a line with a no-break space in front: Python strips it, and so does
  the model.
\<close>

lemma choose_template_no_break_space:
  "stage1_choose_template (CHR 0xA0 # ''pbl'') dynamic_recommended =
     Inr (dynamic_recommended\<lparr>chosen_template := Some (Some ''PBL'')\<rparr>)"
proof -
  have r: "get_or (template_recommendation dynamic_recommended) (Some Map.empty) =
      Some [''template'' \<mapsto> PyStr ''Dynamic'']"
    by (simp add: dynamic_recommended_def get_or_def)
  have s: "strip (CHR 0xA0 # ''pbl'') = ''pbl''"
    by (simp add: strip_def is_space_def)
  from choose_template_override[OF r, of "CHR 0xA0 # ''pbl''"] show ?thesis
    by (simp add: s upper_pbl validate_template_def known_templates_def del: upper.simps)
qed

text \<open>
  C10, as the claim states it, fails on a blank line: the recommended template is
  \<open>XYZ\<close>, and the stage chooses \<open>5E\<close>, not the recommended template.
\<close>

theorem choose_template_blank_counterexample:
  "get_or (template_recommendation xyz_recommended) (Some Map.empty) =
     Some [''template'' \<mapsto> PyStr ''XYZ'', ''confidence'' \<mapsto> PyInt 1] \<and>
   stage1_choose_template '''' xyz_recommended =
     Inr (xyz_recommended\<lparr>chosen_template := Some (Some ''5E'')\<rparr>) \<and>
   ''5E'' \<noteq> ''XYZ''"
  by (simp add: xyz_recommended_def get_or_def stage1_choose_template_def strip_empty
      recommended_def upper_XYZ validate_template_def XYZ_unknown del: upper.simps)

text \<open>
  C10, amended.  The stage reads a recommendation record \<open>rec\<close> (the empty record when the
  key is missing).  A line whose upper case is one of \<open>5E\<close>, \<open>7E\<close>, \<open>PBL\<close>, \<open>DYNAMIC\<close> sets
  \<open>chosen_template\<close> to that upper case.  An empty or blank line sets it to the upper case
  of the recommended template when that is one of the four, and to \<open>5E\<close> otherwise, also
  when the record names no template.
\<close>

theorem choose_template_normalizes:
  "get_or (template_recommendation state) (Some Map.empty) = Some rec \<longrightarrow>
   (\<forall>t. upper line = Some t \<and> t \<in> known_templates \<longrightarrow>
      stage1_choose_template line state = Inr (state\<lparr>chosen_template := Some (Some t)\<rparr>)) \<and>
   (strip line = [] \<longrightarrow>
      (\<forall>r t. rec ''template'' = Some (PyStr r) \<and> upper r = Some t \<and> t \<in> known_templates \<longrightarrow>
         stage1_choose_template line state = Inr (state\<lparr>chosen_template := Some (Some t)\<rparr>)) \<and>
      (\<forall>r. rec ''template'' = Some (PyStr r) \<and> upper r \<notin> Some ` known_templates \<longrightarrow>
         stage1_choose_template line state =
           Inr (state\<lparr>chosen_template := Some (Some ''5E'')\<rparr>)) \<and>
      (rec ''template'' = None \<longrightarrow>
         stage1_choose_template line state =
           Inr (state\<lparr>chosen_template := Some (Some ''5E'')\<rparr>)))"
proof (intro impI conjI allI)
  fix t
  assume r: "get_or (template_recommendation state) (Some Map.empty) = Some rec"
    and k: "upper line = Some t \<and> t \<in> known_templates"
  then have "strip line = line" "strip line \<noteq> []"
    using strip_of_known[of line t] by simp_all
  with choose_template_override[OF r, of line] k
  show "stage1_choose_template line state = Inr (state\<lparr>chosen_template := Some (Some t)\<rparr>)"
    by (simp add: validate_template_def)
next
  fix r t
  assume rc: "get_or (template_recommendation state) (Some Map.empty) = Some rec"
    and b: "strip line = []"
    and t: "rec ''template'' = Some (PyStr r) \<and> upper r = Some t \<and> t \<in> known_templates"
  from t have "recommended rec = Inr r"
    by (simp add: recommended_def)
  from choose_template_blank[OF rc b this] t
  show "stage1_choose_template line state = Inr (state\<lparr>chosen_template := Some (Some t)\<rparr>)"
    by (simp add: validate_template_def)
next
  fix r
  assume rc: "get_or (template_recommendation state) (Some Map.empty) = Some rec"
    and b: "strip line = []"
    and t: "rec ''template'' = Some (PyStr r) \<and> upper r \<notin> Some ` known_templates"
  from t have "recommended rec = Inr r"
    by (simp add: recommended_def)
  from choose_template_blank[OF rc b this] t
  show "stage1_choose_template line state =
      Inr (state\<lparr>chosen_template := Some (Some ''5E'')\<rparr>)"
    by (simp add: validate_template_unknown)
next
  assume rc: "get_or (template_recommendation state) (Some Map.empty) = Some rec"
    and b: "strip line = []" and t: "rec ''template'' = None"
  from t have "recommended rec = Inr ''5E''"
    by (simp add: recommended_def)
  from choose_template_blank[OF rc b this]
  show "stage1_choose_template line state =
      Inr (state\<lparr>chosen_template := Some (Some ''5E'')\<rparr>)"
    by (simp add: upper_5E validate_template_def known_templates_def del: upper.simps)
qed

theorem choose_template_normalizes_witness:
  "upper ''pbl'' = Some ''PBL'' \<and> ''PBL'' \<in> known_templates \<and>
   stage1_choose_template ''pbl'' dynamic_recommended =
     Inr (dynamic_recommended\<lparr>chosen_template := Some (Some ''PBL'')\<rparr>) \<and>
   strip [CHR 0xA0, CHR '' ''] = [] \<and>
   stage1_choose_template [CHR 0xA0, CHR '' ''] dynamic_recommended =
     Inr (dynamic_recommended\<lparr>chosen_template := Some (Some ''DYNAMIC'')\<rparr>) \<and>
   stage1_choose_template [CHR 0xA0, CHR '' ''] xyz_recommended =
     Inr (xyz_recommended\<lparr>chosen_template := Some (Some ''5E'')\<rparr>) \<and>
   stage1_choose_template [CHR 0xA0, CHR '' ''] (initial_state\<lparr>template_recommendation := None\<rparr>) =
     Inr (initial_state\<lparr>template_recommendation := None, chosen_template := Some (Some ''5E'')\<rparr>)"
proof -
  have r: "get_or (template_recommendation dynamic_recommended) (Some Map.empty) =
      Some [''template'' \<mapsto> PyStr ''Dynamic'']"
    by (simp add: dynamic_recommended_def get_or_def)
  have rx: "get_or (template_recommendation xyz_recommended) (Some Map.empty) =
      Some [''template'' \<mapsto> PyStr ''XYZ'', ''confidence'' \<mapsto> PyInt 1]"
    by (simp add: xyz_recommended_def get_or_def)
  have r0: "get_or (template_recommendation (initial_state\<lparr>template_recommendation := None\<rparr>))
      (Some Map.empty) = Some Map.empty"
    by (simp add: get_or_def)
  have k: "''PBL'' \<in> known_templates"
    by (simp add: known_templates_def)
  have d: "''DYNAMIC'' \<in> known_templates"
    by (simp add: known_templates_def)
  have x: "upper ''XYZ'' \<notin> Some ` known_templates"
    using XYZ_unknown by (auto simp: upper_XYZ simp del: upper.simps)
  have t: "[''template'' \<mapsto> PyStr ''Dynamic''] ''template'' = Some (PyStr ''Dynamic'')"
    by simp
  have tx: "[''template'' \<mapsto> PyStr ''XYZ'', ''confidence'' \<mapsto> PyInt 1] ''template'' =
      Some (PyStr ''XYZ'')"
    by simp
  have t0: "(Map.empty :: pydict) ''template'' = None"
    by simp
  from choose_template_normalizes [of dynamic_recommended _ "''pbl''"] r upper_pbl k
  have c1: "stage1_choose_template ''pbl'' dynamic_recommended =
      Inr (dynamic_recommended\<lparr>chosen_template := Some (Some ''PBL'')\<rparr>)"
    by blast
  from choose_template_normalizes [of dynamic_recommended _ "[CHR 0xA0, CHR '' '']"]
    r strip_blank t upper_Dynamic d
  have c2: "stage1_choose_template [CHR 0xA0, CHR '' ''] dynamic_recommended =
      Inr (dynamic_recommended\<lparr>chosen_template := Some (Some ''DYNAMIC'')\<rparr>)"
    by blast
  from choose_template_normalizes [of xyz_recommended _ "[CHR 0xA0, CHR '' '']"]
    rx strip_blank tx x
  have c3: "stage1_choose_template [CHR 0xA0, CHR '' ''] xyz_recommended =
      Inr (xyz_recommended\<lparr>chosen_template := Some (Some ''5E'')\<rparr>)"
    by blast
  from choose_template_normalizes
    [of "initial_state\<lparr>template_recommendation := None\<rparr>" Map.empty "[CHR 0xA0, CHR '' '']"]
    r0 strip_blank t0
  have c4: "stage1_choose_template [CHR 0xA0, CHR '' '']
      (initial_state\<lparr>template_recommendation := None\<rparr>) =
     Inr (initial_state\<lparr>template_recommendation := None, chosen_template := Some (Some ''5E'')\<rparr>)"
    by blast
  from upper_pbl k c1 strip_blank c2 c3 c4 show ?thesis by blast
qed

section \<open>Lists\<close>

lemma index_less: "x \<in> set xs \<Longrightarrow> index xs x < length xs"
  by (induction xs) auto

lemma nth_index: "x \<in> set xs \<Longrightarrow> xs ! index xs x = x"
  by (induction xs) auto

lemma index_nth_distinct: "distinct xs \<Longrightarrow> i < length xs \<Longrightarrow> index xs (xs ! i) = i"
proof (induction xs arbitrary: i)
  case Nil
  then show ?case by simp
next
  case (Cons y ys)
  then show ?case by (cases i) auto
qed

section \<open>What a stage leaves alone\<close>

text \<open>
  C9.  Whatever node runs, in whatever world and state: if it returns, the state it
  returns has the \<open>student_id\<close> it was given; and every node but the context-fetching one
  also returns the context fields \<open>student_info\<close>, \<open>grade\<close>, \<open>subject\<close>, \<open>slos\<close> and
  \<open>pre_slos\<close> as it was given them.
\<close>

theorem stage_units_frame:
  "apply_node w n nd state = Inr state' \<longrightarrow>
     student_id state' = student_id state \<and>
     (nd \<noteq> N_stage1_fetch_context \<longrightarrow>
        student_info state' = student_info state \<and> grade state' = grade state \<and>
        subject state' = subject state \<and> slos state' = slos state \<and>
        pre_slos state' = pre_slos state)"
proof (cases nd)
  case N_stage1_fetch_context
  then show ?thesis
    by (auto simp: stage1_fetch_context_def split: option.splits sum.splits)
next
  case N_stage1_recommend_template
  then show ?thesis
    by (auto simp: stage1_recommend_template_def split: sum.splits)
next
  case N_stage1_choose_template
  then show ?thesis
    by (auto simp: stage1_choose_template_def split: option.splits sum.splits)
next
  case N_init_template
  then show ?thesis by (auto simp: init_template_def Let_def)
next
  case N_stage2_template_approval
  then show ?thesis by (auto simp: stage2_template_approval_def Let_def)
next
  case N_stage2_template_adjustment
  then show ?thesis by (auto simp: stage2_template_adjustment_def Let_def)
next
  case N_stage2_prepare_stages
  then show ?thesis by (auto simp: stage2_prepare_stages_def Let_def)
next
  case N_stage2_populate_stage
  then show ?thesis
    by (auto simp: stage2_populate_stage_def Let_def split: option.splits)
next
  case N_stage2_next_stage
  then show ?thesis
    by (auto simp: stage2_next_stage_def Let_def split: option.splits)
next
  case N_stage3_check_completion
  then show ?thesis by (auto simp: stage3_check_completion_def Let_def)
next
  case N_stage3_generate_output
  then show ?thesis by (auto simp: stage3_generate_output_def)
qed

theorem stage_units_frame_witness:
  "apply_node silent_world 7 N_stage2_populate_stage repeated_stages =
     Inr (stage2_populate_stage (Inl (HTTPError 500)) (\<lambda>j. '''') repeated_stages) \<and>
   student_id (stage2_populate_stage (Inl (HTTPError 500)) (\<lambda>j. '''') repeated_stages) =
     student_id repeated_stages \<and>
   grade (stage2_populate_stage (Inl (HTTPError 500)) (\<lambda>j. '''') repeated_stages) =
     grade repeated_stages \<and>
   slos (stage2_populate_stage (Inl (HTTPError 500)) (\<lambda>j. '''') repeated_stages) =
     slos repeated_stages"
proof -
  have a: "apply_node silent_world 7 N_stage2_populate_stage repeated_stages =
     Inr (stage2_populate_stage (Inl (HTTPError 500)) (\<lambda>j. '''') repeated_stages)"
    by (simp add: silent_world_def)
  have d: "N_stage2_populate_stage \<noteq> N_stage1_fetch_context"
    by simp
  from stage_units_frame [of silent_world 7 N_stage2_populate_stage repeated_stages
      "stage2_populate_stage (Inl (HTTPError 500)) (\<lambda>j. '''') repeated_stages"] a d
  show ?thesis by blast
qed

section \<open>Advancing the cursor\<close>

lemma populate_frame:
  "template_stages (stage2_populate_stage r a s) = template_stages s \<and>
   current_stage (stage2_populate_stage r a s) = current_stage s"
  by (simp add: stage2_populate_stage_def Let_def split: option.splits)

lemma next_stage_frame: "template_stages (stage2_next_stage s) = template_stages s"
  by (simp add: stage2_next_stage_def Let_def split: option.splits)

text \<open>
  Where no name occurs twice, a cursor on the stage at position \<open>i\<close> moves to position
  \<open>i + 1\<close>, and past the last position to null.
\<close>

lemma next_stage_at:
  assumes "template_stages s = Some st" "distinct st" "i < length st"
    and "current_stage s = Some (st ! i)" "st ! i \<noteq> []"
  shows "current_stage (stage2_next_stage s) =
     (if Suc i < length st then Some (st ! Suc i) else None)"
proof -
  from assms have "st ! i \<in> set st" by simp
  moreover from assms have "index st (st ! i) = i" by (simp add: index_nth_distinct)
  moreover have "i < length st - 1 \<longleftrightarrow> Suc i < length st" using assms(3) by auto
  ultimately show ?thesis using assms
    by (simp add: stage2_next_stage_def get_or_def Let_def)
qed

lemma next_stage_last_distinct:
  assumes "template_stages s = Some st" "distinct st" "st \<noteq> []"
    and "current_stage s = Some (last st)"
  shows "current_stage (stage2_next_stage s) = None \<and>
     successor N_stage2_next_stage (stage2_next_stage s) = Some N_stage3_check_completion"
proof -
  have c: "current_stage (stage2_next_stage s) = None"
  proof (cases "last st = []")
    case True
    with assms show ?thesis by (simp add: stage2_next_stage_def)
  next
    case False
    from assms(3) have l: "last st = st ! (length st - 1)" by (rule last_conv_nth)
    from assms(3) have "length st - 1 < length st" by simp
    from next_stage_at[OF assms(1,2) this] assms(4) False l assms(3) show ?thesis
      by simp
  qed
  then show ?thesis
    by (simp add: should_continue_stages_def branch_map_def)
qed

text \<open>
  C7, at a stage sequence that names \<open>Engage\<close> twice: the cursor equals the last element,
  yet advancing finds the first \<open>Engage\<close>, moves the cursor to \<open>Explore\<close>, and the branch
  goes back to the populate node.
\<close>

theorem advance_from_repeated_last:
  "last (get_or (template_stages repeated_stages) []) = ''Engage'' \<and>
   current_stage repeated_stages = Some ''Engage'' \<and>
   current_stage (stage2_next_stage repeated_stages) = Some ''Explore'' \<and>
   should_continue_stages (stage2_next_stage repeated_stages) = ''continue'' \<and>
   successor N_stage2_next_stage (stage2_next_stage repeated_stages) = Some N_stage2_populate_stage"
  by (simp add: repeated_stages_def initial_state_def get_or_def stage2_next_stage_def
      should_continue_stages_def branch_map_def)

section \<open>The stage loop\<close>

lemma loop_repeats:
  assumes "template_stages s = Some [a, b, a]" "a \<noteq> b" "a \<noteq> []" "b \<noteq> []"
    and "current_stage s = Some a \<or> current_stage s = Some b"
    and "nd = N_stage2_populate_stage \<or> nd = N_stage2_next_stage"
  shows "run_from w fuel n nd s = None"
  using assms
proof (induction fuel arbitrary: n nd s)
  case 0
  then show ?case by simp
next
  case (Suc fuel)
  from Suc.prems(6) show ?case
  proof
    assume nd: "nd = N_stage2_populate_stage"
    let ?s' = "stage2_populate_stage (api_propose_activities w n) (typed w n) s"
    have "run_from w fuel (Suc n) N_stage2_next_stage ?s' = None"
      using Suc.prems by (intro Suc.IH) (simp_all add: populate_frame)
    then show ?thesis by (simp add: nd)
  next
    assume nd: "nd = N_stage2_next_stage"
    let ?s' = "stage2_next_stage s"
    from Suc.prems have c: "current_stage ?s' = Some a \<or> current_stage ?s' = Some b"
      by (auto simp: stage2_next_stage_def get_or_def)
    with Suc.prems have b: "successor N_stage2_next_stage ?s' = Some N_stage2_populate_stage"
      by (auto simp: should_continue_stages_def branch_map_def)
    have "run_from w fuel (Suc n) N_stage2_populate_stage ?s' = None"
      using Suc.prems c by (intro Suc.IH) (simp_all add: next_stage_frame)
    then show ?thesis using b by (simp add: nd)
  qed
qed

lemma parse_repeated:
  "parse_stage_list ''Engage,Explore,Engage'' = [''Engage'', ''Explore'', ''Engage'']"
  by (simp add: parse_stage_list_def strip_def is_space_def)

lemma lower_strip_y: "lower (strip ''y'') = ''y''"
  by code_simp

lemma adjusted_prepared:
  "template_stages (stage2_prepare_stages
      (stage2_template_adjustment ''y'' ''Engage,Explore,Engage'' s)) =
     Some [''Engage'', ''Explore'', ''Engage''] \<and>
   current_stage (stage2_prepare_stages
      (stage2_template_adjustment ''y'' ''Engage,Explore,Engage'' s)) = Some ''Engage''"
  by (simp add: stage2_prepare_stages_def stage2_template_adjustment_def lower_strip_y
      parse_repeated get_or_def Let_def)

lemma run_from_step_None:
  assumes "apply_node w n nd s = Inr s'" "successor nd s' = Some nxt"
    and "m = Suc n" and "\<And>k. run_from w k m nxt s' = None"
  shows "run_from w fuel n nd s = None"
  using assms by (cases fuel) simp_all

lemma adjustment_repeats:
  "run_from (w\<lparr>typed := (typed w)(n := (\<lambda>j. if j = 0 then ''y'' else ''Engage,Explore,Engage''))\<rparr>)
     fuel n N_stage2_template_adjustment state = None"
proof -
  let ?w = "w\<lparr>typed := (typed w)(n := (\<lambda>j. if j = 0 then ''y'' else ''Engage,Explore,Engage''))\<rparr>"
  let ?a = "stage2_template_adjustment ''y'' ''Engage,Explore,Engage'' state"
  have loop: "run_from ?w k (Suc (Suc n)) N_stage2_populate_stage (stage2_prepare_stages ?a) = None" for k
    by (rule loop_repeats[where a = "''Engage''" and b = "''Explore''"])
       (simp_all add: adjusted_prepared)
  have prep: "run_from ?w k (Suc n) N_stage2_prepare_stages ?a = None" for k
    by (rule run_from_step_None[OF _ _ _ loop]) simp_all
  show ?thesis
    by (rule run_from_step_None[OF _ _ _ prep]) simp_all
qed

lemma whole_run_repeats:
  "run_from repeating_world fuel 0 N_stage1_fetch_context initial_state = None"
proof -
  have adj: "run_from repeating_world k 5 N_stage2_template_adjustment s = None" for k s
    unfolding repeating_world_def by (rule adjustment_repeats)
  have appr: "run_from repeating_world k 4 N_stage2_template_approval s = None" for k s
    by (rule run_from_step_None[where m = 5, OF _ _ _ adj]) simp_all
  have init: "run_from repeating_world k 3 N_init_template s = None" for k s
    by (rule run_from_step_None[where m = 4, OF _ _ _ appr]) simp_all
  have choose: "run_from repeating_world k 2 N_stage1_choose_template
      (stage1_recommend_template (Inl e) s) = None" for k e s
  proof -
    have t: "typed repeating_world 2 0 = ''''"
      by (simp add: repeating_world_def silent_world_def)
    have c: "stage1_choose_template '''' (stage1_recommend_template (Inl e) s) =
        Inr ((stage1_recommend_template (Inl e) s)
          \<lparr>chosen_template := Some (Some (validate_template (upper ''5E'')))\<rparr>)"
      by (rule choose_template_blank[where rec = default_recommendation])
         (simp_all add: stage1_recommend_template_def get_or_def strip_empty
            recommended_def default_recommendation_def)
    show ?thesis
      by (rule run_from_step_None[where m = 3, OF _ _ _ init]) (simp_all add: t c)
  qed
  have recm: "run_from repeating_world k 1 N_stage1_recommend_template s = None" for k s
  proof -
    have a: "api_recommend_template repeating_world j = Inl (HTTPError 500)" for j
      by (simp add: repeating_world_def silent_world_def)
    show ?thesis
      by (rule run_from_step_None[where m = 2, OF _ _ _ choose[of _ "HTTPError 500" s]])
         (simp_all add: a)
  qed
  show ?thesis
    by (rule run_from_step_None[where m = 1, OF _ _ _ recm]) simp_all
qed

text \<open>
  C2, at the adjustment \<open>Engage,Explore,Engage\<close>: the run of \<open>__main__\<close> never reaches
  \<open>END\<close>, whatever the number of nodes it is given; and so from the adjustment node in
  every state and every world, whatever the reasoner service and the human answer later.
\<close>

theorem repeated_stage_name_never_ends:
  "run_from repeating_world fuel 0 N_stage1_fetch_context initial_state = None \<and>
   run_from
     (w\<lparr>typed := (typed w)(n := (\<lambda>j. if j = 0 then ''y'' else ''Engage,Explore,Engage''))\<rparr>)
     fuel n N_stage2_template_adjustment state = None"
  by (simp only: whole_run_repeats adjustment_repeats simp_thms)

text \<open>
  C4, at the same adjustment: within the first twelve nodes the populate node writes the
  key \<open>Engage\<close> twice; and when the human approves the activity at the first visit and
  rejects it at the second, the entry under \<open>Engage\<close> holds one activity after the first
  write and none after the second.
\<close>

theorem repeated_stage_name_written_twice:
  "populated (trace repeating_world 12 0 N_stage1_fetch_context initial_state) =
     [''Engage'', ''Explore'', ''Engage''] \<and>
   entry_sizes ''Engage'' (trace fickle_world 13 0 N_stage1_fetch_context initial_state) =
     [None, None, None, None, None, None, None, None, Some 1, Some 1, Some 1, Some 1, Some 0]"
proof
  show "populated (trace repeating_world 12 0 N_stage1_fetch_context initial_state) =
     [''Engage'', ''Explore'', ''Engage'']"
    by code_simp
  show "entry_sizes ''Engage'' (trace fickle_world 13 0 N_stage1_fetch_context initial_state) =
     [None, None, None, None, None, None, None, None, Some 1, Some 1, Some 1, Some 1, Some 0]"
    by code_simp
qed

section \<open>After the adjustment\<close>

lemma next_stage_cursor_within:
  assumes "template_stages s = Some st"
  shows "cursor_within st (stage2_next_stage s)"
proof (cases "current_stage s")
  case None
  then show ?thesis by (simp add: cursor_within_def stage2_next_stage_def)
next
  case (Some c)
  show ?thesis
  proof (cases "c \<noteq> [] \<and> c \<in> set st \<and> index st c < length st - 1")
    case True
    then have "Suc (index st c) < length st" by auto
    then have "st ! Suc (index st c) \<in> set st" by (rule nth_mem)
    with True Some assms show ?thesis
      by (simp add: cursor_within_def stage2_next_stage_def get_or_def)
  next
    case False
    with Some assms show ?thesis
      by (auto simp: cursor_within_def stage2_next_stage_def get_or_def)
  qed
qed

lemma prepare_cursor_within:
  assumes "template_stages s = Some st"
  shows "cursor_within st (stage2_prepare_stages s)"
  using assms by (simp add: cursor_within_def stage2_prepare_stages_def get_or_def)

lemma step_after_adjustment:
  assumes "template_stages s = Some new"
    and "nd \<in> {N_stage2_prepare_stages, N_stage2_populate_stage, N_stage2_next_stage,
                 N_stage3_check_completion, N_stage3_generate_output}"
    and "nd \<noteq> N_stage2_prepare_stages \<longrightarrow> cursor_within new s"
    and "apply_node w n nd s = Inr s'" and "successor nd s' = Some nxt"
  shows "template_stages s' = Some new \<and> cursor_within new s' \<and>
     nxt \<in> {N_stage2_populate_stage, N_stage2_next_stage,
             N_stage3_check_completion, N_stage3_generate_output}"
proof -
  from assms(2) consider "nd = N_stage2_prepare_stages" | "nd = N_stage2_populate_stage"
    | "nd = N_stage2_next_stage" | "nd = N_stage3_check_completion"
    | "nd = N_stage3_generate_output"
    by auto
  then show ?thesis
  proof cases
    case 1
    with assms prepare_cursor_within[OF assms(1)] show ?thesis
      by (auto simp: stage2_prepare_stages_def Let_def)
  next
    case 2
    with assms show ?thesis
      by (auto simp: populate_frame cursor_within_def)
  next
    case 3
    with assms next_stage_cursor_within[OF assms(1)] show ?thesis
      by (auto simp: next_stage_frame branch_map_def should_continue_stages_def
          split: option.splits if_splits)
  next
    case 4
    with assms show ?thesis
      by (auto simp: stage3_check_completion_def Let_def cursor_within_def)
  next
    case 5
    with assms show ?thesis by simp
  qed
qed

lemma trace_after_adjustment:
  assumes "template_stages s = Some new"
    and "nd \<in> {N_stage2_prepare_stages, N_stage2_populate_stage, N_stage2_next_stage,
                 N_stage3_check_completion, N_stage3_generate_output}"
    and "nd \<noteq> N_stage2_prepare_stages \<longrightarrow> cursor_within new s"
  shows "\<forall>(nd', s') \<in> set (trace w fuel n nd s).
     template_stages s' = Some new \<and> (nd' \<noteq> N_stage2_prepare_stages \<longrightarrow> cursor_within new s')"
  using assms
proof (induction fuel arbitrary: n nd s)
  case 0
  then show ?case by simp
next
  case (Suc fuel)
  obtain s' where a: "apply_node w n nd s = Inr s'"
    using Suc.prems(2) by auto
  show ?case
  proof (cases "successor nd s'")
    case None
    with a Suc.prems show ?thesis by simp
  next
    case (Some nxt)
    from step_after_adjustment[OF Suc.prems a Some]
    have st: "template_stages s' = Some new" and cw: "cursor_within new s'"
      and nx: "nxt \<in> {N_stage2_populate_stage, N_stage2_next_stage,
             N_stage3_check_completion, N_stage3_generate_output}"
      by simp_all
    from nx have nx': "nxt \<in> {N_stage2_prepare_stages, N_stage2_populate_stage,
        N_stage2_next_stage, N_stage3_check_completion, N_stage3_generate_output}"
      by auto
    have "\<forall>(nd', s') \<in> set (trace w fuel (Suc n) nxt s').
        template_stages s' = Some new \<and>
        (nd' \<noteq> N_stage2_prepare_stages \<longrightarrow> cursor_within new s')"
      by (rule Suc.IH[OF st nx']) (simp add: cw)
    with a Some Suc.prems show ?thesis by simp
  qed
qed

lemma populated_within:
  assumes "\<forall>(nd, s) \<in> set tr. nd \<noteq> N_stage2_prepare_stages \<longrightarrow> cursor_within new s"
  shows "set (populated tr) \<subseteq> set new"
  using assms
proof (induction tr)
  case Nil
  then show ?case by simp
next
  case (Cons p tr)
  obtain nd s where p: "p = (nd, s)" by (cases p)
  with Cons show ?case
    by (auto simp: cursor_within_def split: option.splits)
qed

lemma populated_skip:
  "nd \<noteq> N_stage2_populate_stage \<Longrightarrow> populated ((nd, s) # tr) = populated tr"
  by (simp split: option.splits)

text \<open>
  C8.  When the human answers \<open>y\<close> at the adjustment, the list they type (split at the
  commas, each piece stripped, blank pieces dropped) becomes \<open>template_stages\<close>; every
  node that runs afterwards is entered with that sequence; from the populate node on the
  cursor is null or a name of that sequence; and every key the populate node writes is a
  name of that sequence.
\<close>

theorem adjustment_replaces_stage_sequence:
  "lower (strip (typed w n 0)) = ''y'' \<longrightarrow>
     template_stages (stage2_template_adjustment (typed w n 0) (typed w n 1) state) =
       Some (parse_stage_list (typed w n 1)) \<and>
     (\<forall>(nd, s) \<in> set (tl (trace w fuel n N_stage2_template_adjustment state)).
        template_stages s = Some (parse_stage_list (typed w n 1)) \<and>
        (nd \<noteq> N_stage2_prepare_stages \<longrightarrow> cursor_within (parse_stage_list (typed w n 1)) s)) \<and>
     set (populated (trace w fuel n N_stage2_template_adjustment state)) \<subseteq>
       set (parse_stage_list (typed w n 1))"
proof
  assume y: "lower (strip (typed w n 0)) = ''y''"
  let ?new = "parse_stage_list (typed w n 1)"
  let ?a = "stage2_template_adjustment (typed w n 0) (typed w n 1) state"
  from y have new: "template_stages ?a = Some ?new"
    by (simp add: stage2_template_adjustment_def Let_def)
  have inv: "\<forall>(nd, s) \<in> set (trace w k (Suc n) N_stage2_prepare_stages ?a).
      template_stages s = Some ?new \<and>
      (nd \<noteq> N_stage2_prepare_stages \<longrightarrow> cursor_within ?new s)" for k
    by (rule trace_after_adjustment[OF new]) simp_all
  have tr: "tl (trace w fuel n N_stage2_template_adjustment state) =
      (case fuel of 0 \<Rightarrow> [] | Suc k \<Rightarrow> trace w k (Suc n) N_stage2_prepare_stages ?a)"
    by (cases fuel) simp_all
  have 1: "\<forall>(nd, s) \<in> set (tl (trace w fuel n N_stage2_template_adjustment state)).
      template_stages s = Some ?new \<and>
      (nd \<noteq> N_stage2_prepare_stages \<longrightarrow> cursor_within ?new s)"
    unfolding tr using inv by (cases fuel) simp_all
  have "populated (trace w fuel n N_stage2_template_adjustment state) =
      populated (tl (trace w fuel n N_stage2_template_adjustment state))"
    by (cases fuel) (simp_all add: populated_skip del: populated.simps)
  moreover have
    "set (populated (tl (trace w fuel n N_stage2_template_adjustment state))) \<subseteq> set ?new"
    by (rule populated_within) (use 1 in auto)
  ultimately have 2:
    "set (populated (trace w fuel n N_stage2_template_adjustment state)) \<subseteq> set ?new"
    by simp
  from new 1 2 show "template_stages ?a = Some ?new \<and>
     (\<forall>(nd, s) \<in> set (tl (trace w fuel n N_stage2_template_adjustment state)).
        template_stages s = Some ?new \<and>
        (nd \<noteq> N_stage2_prepare_stages \<longrightarrow> cursor_within ?new s)) \<and>
     set (populated (trace w fuel n N_stage2_template_adjustment state)) \<subseteq> set ?new"
    by blast
qed

theorem adjustment_replaces_stage_sequence_witness:
  "lower (strip (typed adjusting_world 5 0)) = ''y'' \<and>
   parse_stage_list (typed adjusting_world 5 1) = [''Hook'', ''Practice''] \<and>
   template_stages engage_only = Some [''Engage''] \<and>
   template_stages
     (stage2_template_adjustment (typed adjusting_world 5 0) (typed adjusting_world 5 1)
        engage_only) = Some (parse_stage_list (typed adjusting_world 5 1)) \<and>
   set (populated (trace adjusting_world 9 5 N_stage2_template_adjustment engage_only)) \<subseteq>
     set (parse_stage_list (typed adjusting_world 5 1))"
proof -
  have "typed adjusting_world 5 0 = [CHR ''Y'', CHR 0xA0]"
    by (simp add: adjusting_world_def silent_world_def)
  then have y: "lower (strip (typed adjusting_world 5 0)) = ''y''"
    by (simp only: lower_strip_no_break_space)
  have p: "parse_stage_list (typed adjusting_world 5 1) = [''Hook'', ''Practice'']"
    by (simp add: adjusting_world_def silent_world_def parse_stage_list_def strip_def
        is_space_def)
  have e: "template_stages engage_only = Some [''Engage'']"
    by (simp add: engage_only_def)
  from adjustment_replaces_stage_sequence [of adjusting_world 5 engage_only 9] y
  have "template_stages
     (stage2_template_adjustment (typed adjusting_world 5 0) (typed adjusting_world 5 1)
        engage_only) = Some (parse_stage_list (typed adjusting_world 5 1)) \<and>
   set (populated (trace adjusting_world 9 5 N_stage2_template_adjustment engage_only)) \<subseteq>
     set (parse_stage_list (typed adjusting_world 5 1))"
    by blast
  with y p e show ?thesis by blast
qed


section \<open>The stage loop on a sequence without repeated names\<close>

text \<open>
  Where no stage name occurs twice and none is empty, the loop entered with the cursor at
  position \<open>i\<close> reaches \<open>END\<close> within two nodes for each remaining stage and two more, and
  the populate node writes the remaining names, each once and in order.
\<close>

lemma loop_terminates_distinct:
  assumes "template_stages s = Some st" "distinct st" "[] \<notin> set st"
    and "i < length st" "current_stage s = Some (st ! i)" "k = length st - i"
  shows "\<exists>final. run_from w (2 * k + 2) n N_stage2_populate_stage s = Some (Inr final) \<and>
     populated (trace w (2 * k + 2) n N_stage2_populate_stage s) = drop i st"
  using assms
proof (induction k arbitrary: i n s)
  case 0
  then show ?case by simp
next
  case (Suc k)
  let ?s1 = "stage2_populate_stage (api_propose_activities w n) (typed w n) s"
  let ?s2 = "stage2_next_stage ?s1"
  from Suc.prems have ne: "st ! i \<noteq> []" by (metis nth_mem)
  have st1: "template_stages ?s1 = Some st" and c1: "current_stage ?s1 = Some (st ! i)"
    using Suc.prems by (simp_all add: populate_frame)
  have st2: "template_stages ?s2 = Some st"
    using st1 by (simp add: next_stage_frame)
  have c2: "current_stage ?s2 = (if Suc i < length st then Some (st ! Suc i) else None)"
    by (rule next_stage_at[OF st1 Suc.prems(2) Suc.prems(4) c1 ne])
  have d: "drop i st = st ! i # drop (Suc i) st"
    using Suc.prems(4) by (simp add: Cons_nth_drop_Suc)
  show ?case
  proof (cases "Suc i < length st")
    case True
    with Suc.prems have k: "k = length st - Suc i" by simp
    from True c2 have c2': "current_stage ?s2 = Some (st ! Suc i)" by simp
    from True Suc.prems have ne2: "st ! Suc i \<noteq> []" by (metis nth_mem)
    from Suc.IH[OF st2 Suc.prems(2,3) True c2' k, of "Suc (Suc n)"]
    obtain final where
      r: "run_from w (2 * k + 2) (Suc (Suc n)) N_stage2_populate_stage ?s2 = Some (Inr final)"
      and p: "populated (trace w (2 * k + 2) (Suc (Suc n)) N_stage2_populate_stage ?s2) =
        drop (Suc i) st"
      by blast
    have b: "successor N_stage2_next_stage ?s2 = Some N_stage2_populate_stage"
      using c2' ne2 by (simp add: should_continue_stages_def branch_map_def)
    have "run_from w (2 * Suc k + 2) n N_stage2_populate_stage s = Some (Inr final)"
      using r b by simp
    moreover have "populated (trace w (2 * Suc k + 2) n N_stage2_populate_stage s) = drop i st"
      using p b Suc.prems(5) ne c1 d by simp
    ultimately show ?thesis by blast
  next
    case False
    with Suc.prems have k: "k = 0" and i: "Suc i = length st" by simp_all
    from False c2 have c2': "current_stage ?s2 = None" by simp
    have b: "successor N_stage2_next_stage ?s2 = Some N_stage3_check_completion"
      using c2' by (simp add: should_continue_stages_def branch_map_def)
    have "run_from w (2 * Suc k + 2) n N_stage2_populate_stage s =
        Some (Inr (stage3_generate_output (stage3_check_completion ?s2)))"
      using b k by (simp add: eval_nat_numeral)
    moreover have "populated (trace w (2 * Suc k + 2) n N_stage2_populate_stage s) = drop i st"
      using b k Suc.prems(5) ne c1 c2' d i
      by (simp add: eval_nat_numeral stage3_check_completion_def Let_def)
    ultimately show ?thesis by blast
  qed
qed

lemma stage_loop_terminates_distinct:
  assumes "distinct (get_or (template_stages s) [])"
    and "[] \<notin> set (get_or (template_stages s) [])"
  shows "\<exists>fuel final.
     run_from w fuel n N_stage2_prepare_stages s = Some (Inr final) \<and>
     populated (trace w fuel n N_stage2_prepare_stages s) = get_or (template_stages s) []"
proof (cases "get_or (template_stages s) [] = []")
  case True
  let ?p = "stage2_prepare_stages s"
  from True have c: "current_stage ?p = None"
    by (simp add: stage2_prepare_stages_def Let_def)
  then have pop: "stage2_populate_stage r a ?p = ?p" for r a
    by (simp add: stage2_populate_stage_def)
  from c have nx: "current_stage (stage2_next_stage ?p) = None"
    by (simp add: stage2_next_stage_def)
  then have b: "successor N_stage2_next_stage (stage2_next_stage ?p) =
      Some N_stage3_check_completion"
    by (simp add: should_continue_stages_def branch_map_def)
  have "run_from w 5 n N_stage2_prepare_stages s =
      Some (Inr (stage3_generate_output (stage3_check_completion (stage2_next_stage ?p))))"
    using pop b by (simp add: eval_nat_numeral)
  moreover have "populated (trace w 5 n N_stage2_prepare_stages s) = []"
  proof -
    have tr: "trace w 5 n N_stage2_prepare_stages s =
        (N_stage2_prepare_stages, s) # trace w 4 (Suc n) N_stage2_populate_stage ?p"
      by (simp add: eval_nat_numeral)
    have "populated (trace w 4 (Suc n) N_stage2_populate_stage ?p) = []"
      using pop b c nx
      by (simp add: eval_nat_numeral stage3_check_completion_def Let_def)
    then show ?thesis
      by (simp add: tr populated_skip del: populated.simps trace.simps)
  qed
  ultimately show ?thesis using True by metis
next
  case False
  define st where "st = get_or (template_stages s) []"
  with False have st: "template_stages s = Some st" and ne: "st \<noteq> []"
    by (auto simp: get_or_def split: option.splits)
  let ?p = "stage2_prepare_stages s"
  have stp: "template_stages ?p = Some st"
    using st by (simp add: stage2_prepare_stages_def Let_def)
  have cp: "current_stage ?p = Some (st ! 0)"
    using st ne by (simp add: stage2_prepare_stages_def Let_def get_or_def hd_conv_nth)
  from ne have l: "0 < length st" by simp
  from loop_terminates_distinct[OF stp _ _ l cp refl, of w "Suc n"] assms
  obtain final where
    r: "run_from w (2 * (length st - 0) + 2) (Suc n) N_stage2_populate_stage ?p =
        Some (Inr final)"
    and p: "populated (trace w (2 * (length st - 0) + 2) (Suc n) N_stage2_populate_stage ?p) =
        drop 0 st"
    unfolding st_def by blast
  have "run_from w (Suc (2 * (length st - 0) + 2)) n N_stage2_prepare_stages s =
      Some (Inr final)"
    using r by simp
  moreover
  have "populated (trace w (Suc (2 * (length st - 0) + 2)) n N_stage2_prepare_stages s) = st"
    using p by (simp add: populated_skip del: populated.simps(2))
  ultimately show ?thesis unfolding st_def by blast
qed

end
